theory Spec2Isabelle
  imports Complex_Main "HOL-Library.Sublist" "HOL-Library.Multiset" "HOL-Library.Log_Nat"
begin

section \<open>Python values\<close>

datatype py_exn = TypeError | AttributeError | KeyError | ValueError | OverflowError
  | ZeroDivisionError | RecursionError | OtherError

definition bind_exn :: "py_exn + 'a \<Rightarrow> ('a \<Rightarrow> py_exn + 'b) \<Rightarrow> py_exn + 'b" where
  "bind_exn m f = (case m of Inl e \<Rightarrow> Inl e | Inr x \<Rightarrow> f x)"

subsection \<open>Floats\<close>

text \<open>
  A Python float is a binary64 number. \<open>Float m e\<close> is the finite value \<open>m * 2 ^ e\<close>; a
  double is a value with a mantissa of at most 53 bits. The non-standard JSON literals
  \<^verbatim>\<open>NaN\<close> and \<^verbatim>\<open>Infinity\<close> are not represented, and the exponent is not bounded: a result at
  or beyond \<open>2 ^ 1024\<close> (Python's \<^verbatim>\<open>inf\<close>) would need token counts beyond \<open>10 ^ 300\<close> here, and
  the sums, products and quotients below never fall under the normal range.
\<close>

datatype pyfloat = Float int int

definition fval :: "pyfloat \<Rightarrow> real" where
  "fval x = (case x of Float m e \<Rightarrow> of_int m * 2 powi e)"


text \<open>The integer nearest to \<open>n / d\<close> (for \<open>d > 0\<close>), a tie going to the even one.\<close>

definition round_half_even :: "int \<Rightarrow> int \<Rightarrow> int" where
  "round_half_even n d =
     (let q = n div d; r = n mod d
      in if 2 * r < d then q else if d < 2 * r then q + 1 else if even q then q else q + 1)"

text \<open>\<open>m * 2 ^ e\<close> rounded to the nearest double, ties to even.\<close>

definition round53 :: "int \<Rightarrow> int \<Rightarrow> pyfloat" where
  "round53 m e =
     (let k = bitlen \<bar>m\<bar> - 53
      in if k \<le> 0 then Float m e else Float (round_half_even m (2 ^ nat k)) (e + k))"

text \<open>\<open>shifted n d s\<close> is numerator and denominator of \<open>n / d * 2 ^ s\<close>; \<open>quotient_exponent n d\<close>
  is the \<open>b\<close> with \<open>2 ^ b \<le> \<bar>n\<bar> / d < 2 ^ (b + 1)\<close>; \<open>round53_div n d e\<close> is \<open>n / d * 2 ^ e\<close>
  (for \<open>d > 0\<close>) rounded to the nearest double, ties to even.\<close>

definition shifted :: "int \<Rightarrow> int \<Rightarrow> int \<Rightarrow> int \<times> int" where
  "shifted n d s = (if 0 \<le> s then (n * 2 ^ nat s, d) else (n, d * 2 ^ nat (- s)))"

definition quotient_exponent :: "int \<Rightarrow> int \<Rightarrow> int" where
  "quotient_exponent n d =
     (let b = bitlen \<bar>n\<bar> - bitlen d
      in case shifted \<bar>n\<bar> d (- b) of (N, D) \<Rightarrow> if D \<le> N then b else b - 1)"

definition round53_div :: "int \<Rightarrow> int \<Rightarrow> int \<Rightarrow> pyfloat" where
  "round53_div n d e =
     (if n = 0 then Float 0 0
      else let s = 52 - quotient_exponent n d
           in case shifted n d s of (N, D) \<Rightarrow> Float (round_half_even N D) (e - s))"

text \<open>Converting an int to a float raises \<^verbatim>\<open>OverflowError\<close> when the int rounds to
  \<open>2 ^ 1024\<close> or beyond.\<close>

definition float_overflows :: "int \<Rightarrow> bool" where
  "float_overflows n = (\<bar>n\<bar> \<ge> 2 ^ 1024 - 2 ^ 970)"

definition float_of_int :: "int \<Rightarrow> py_exn + pyfloat" where
  "float_of_int n = (if float_overflows n then Inl OverflowError else Inr (round53 n 0))"

text \<open>\<^verbatim>\<open>x + y\<close>, \<^verbatim>\<open>x * y\<close> and \<^verbatim>\<open>x / y\<close> on floats: the exact result, rounded.\<close>

definition fadd :: "pyfloat \<Rightarrow> pyfloat \<Rightarrow> pyfloat" where
  "fadd x y =
     (case x of Float m1 e1 \<Rightarrow> case y of Float m2 e2 \<Rightarrow>
        let e = min e1 e2
        in round53 (m1 * 2 ^ nat (e1 - e) + m2 * 2 ^ nat (e2 - e)) e)"

definition fmul :: "pyfloat \<Rightarrow> pyfloat \<Rightarrow> pyfloat" where
  "fmul x y = (case x of Float m1 e1 \<Rightarrow> case y of Float m2 e2 \<Rightarrow> round53 (m1 * m2) (e1 + e2))"

definition fdiv :: "pyfloat \<Rightarrow> pyfloat \<Rightarrow> py_exn + pyfloat" where
  "fdiv x y =
     (case x of Float m1 e1 \<Rightarrow> case y of Float m2 e2 \<Rightarrow>
        if m2 = 0 then Inl ZeroDivisionError
        else if 0 < m2 then Inr (round53_div m1 m2 (e1 - e2))
        else Inr (round53_div (- m1) (- m2) (e1 - e2)))"

subsection \<open>Values read from JSON\<close>

text \<open>
  \<^verbatim>\<open>json.loads\<close> and \<^verbatim>\<open>json.load\<close> give a Python object: \<^verbatim>\<open>None\<close>, a bool, an int
  (unbounded), a float, a str, a list or a dict. A dict is the association list of its
  items; \<open>map_of\<close> reads it.
\<close>

datatype pyval =
    PNone
  | PBool bool
  | PInt int
  | PFloat pyfloat
  | PStr string
  | PList "pyval list"
  | PDict "(string \<times> pyval) list"

text \<open>What \<^verbatim>\<open>json.loads(line.strip())\<close> does with a line: it returns an object, raises
  \<^verbatim>\<open>json.JSONDecodeError\<close>, or raises something else (\<^verbatim>\<open>RecursionError\<close> on deep nesting,
  \<^verbatim>\<open>ValueError\<close> on an integer literal beyond the digit limit).\<close>

datatype load_result = Loaded pyval | JSONDecodeError | LoadRaised py_exn

text \<open>\<^verbatim>\<open>key in v\<close> for a str key: key membership in a dict, element membership in a
  list, substring test in a str; the other objects are not iterable.\<close>

fun py_contains :: "string \<Rightarrow> pyval \<Rightarrow> py_exn + bool" where
  "py_contains k (PDict kvs) = Inr (map_of kvs k \<noteq> None)"
| "py_contains k (PList xs) = Inr (PStr k \<in> set xs)"
| "py_contains k (PStr s) = Inr (sublist k s)"
| "py_contains k PNone = Inl TypeError"
| "py_contains k (PBool b) = Inl TypeError"
| "py_contains k (PInt n) = Inl TypeError"
| "py_contains k (PFloat x) = Inl TypeError"

text \<open>\<^verbatim>\<open>v[key]\<close> for a str key: a dict looks the key up (\<^verbatim>\<open>KeyError\<close> when missing); a list
  or str takes integer indices only; the other objects are not subscriptable.\<close>

fun py_getitem :: "pyval \<Rightarrow> string \<Rightarrow> py_exn + pyval" where
  "py_getitem (PDict kvs) k = (case map_of kvs k of None \<Rightarrow> Inl KeyError | Some v \<Rightarrow> Inr v)"
| "py_getitem v k = Inl TypeError"

text \<open>\<^verbatim>\<open>v.get(key, default)\<close>: only a dict has the method.\<close>

fun py_get :: "pyval \<Rightarrow> string \<Rightarrow> pyval \<Rightarrow> py_exn + pyval" where
  "py_get (PDict kvs) k d = Inr (case map_of kvs k of None \<Rightarrow> d | Some v \<Rightarrow> v)"
| "py_get v k d = Inl AttributeError"

text \<open>A running total of the log reader is a Python int, or a float once a float has been
  added to it (the value of such a total is not tracked).\<close>

datatype total = TInt int | TFloat

text \<open>\<^verbatim>\<open>total += v\<close>: a bool counts as 0 or 1; \<^verbatim>\<open>None\<close>, str, list and dict raise
  \<^verbatim>\<open>TypeError\<close>.\<close>

fun py_iadd :: "total \<Rightarrow> pyval \<Rightarrow> py_exn + total" where
  "py_iadd (TInt a) (PInt b) = Inr (TInt (a + b))"
| "py_iadd (TInt a) (PBool b) = Inr (TInt (a + (if b then 1 else 0)))"
| "py_iadd (TInt a) (PFloat x) = (if float_overflows a then Inl OverflowError else Inr TFloat)"
| "py_iadd TFloat (PInt b) = (if float_overflows b then Inl OverflowError else Inr TFloat)"
| "py_iadd TFloat (PBool b) = Inr TFloat"
| "py_iadd TFloat (PFloat x) = Inr TFloat"
| "py_iadd t v = Inl TypeError"

section \<open>calculate_session_tokens.py: the session log reader\<close>

text \<open>The loop state: \<^verbatim>\<open>total_input_tokens\<close>, \<^verbatim>\<open>total_output_tokens\<close>, \<^verbatim>\<open>first_timestamp\<close>.\<close>

type_synonym scan_state = "total \<times> total \<times> pyval"

definition initial_state :: scan_state where
  "initial_state = (TInt 0, TInt 0, PNone)"

text \<open>The test of lines 60 to 62, \<^verbatim>\<open>and\<close> evaluated left to right with short circuit.\<close>

definition has_usage :: "pyval \<Rightarrow> py_exn + bool" where
  "has_usage data =
     bind_exn (py_get data ''type'' PNone) (\<lambda>ty.
       if ty \<noteq> PStr ''assistant'' then Inr False
       else bind_exn (py_contains ''message'' data) (\<lambda>has_message.
         if \<not> has_message then Inr False
         else bind_exn (py_getitem data ''message'') (\<lambda>message.
           py_contains ''usage'' message)))"

text \<open>The body of the inner \<^verbatim>\<open>try\<close> after \<^verbatim>\<open>json.loads\<close> returned (lines 55 to 66).\<close>

definition process_data :: "scan_state \<Rightarrow> pyval \<Rightarrow> py_exn + scan_state" where
  "process_data st data =
     (case st of (total_input_tokens, total_output_tokens, first_timestamp) \<Rightarrow>
      bind_exn (py_contains ''timestamp'' data) (\<lambda>has_timestamp.
      bind_exn (if has_timestamp \<and> first_timestamp = PNone
                then py_getitem data ''timestamp'' else Inr first_timestamp) (\<lambda>first_timestamp'.
      bind_exn (has_usage data) (\<lambda>counted.
        if \<not> counted then Inr (total_input_tokens, total_output_tokens, first_timestamp')
        else
          bind_exn (py_getitem data ''message'') (\<lambda>message.
          bind_exn (py_getitem message ''usage'') (\<lambda>usage.
          bind_exn (py_get usage ''input_tokens'' (PInt 0)) (\<lambda>i.
          bind_exn (py_iadd total_input_tokens i) (\<lambda>total_input_tokens'.
          bind_exn (py_get usage ''output_tokens'' (PInt 0)) (\<lambda>out.
          bind_exn (py_iadd total_output_tokens out) (\<lambda>total_output_tokens'.
            Inr (total_input_tokens', total_output_tokens', first_timestamp')))))))))))"

text \<open>One iteration of the loop over the lines (lines 51 to 69): a \<^verbatim>\<open>JSONDecodeError\<close> is
  caught and the loop continues with its state unchanged; any other exception leaves the
  loop.\<close>

definition process_line :: "('l \<Rightarrow> load_result) \<Rightarrow> scan_state \<Rightarrow> 'l \<Rightarrow> py_exn + scan_state" where
  "process_line loads st line =
     (case loads line of
        JSONDecodeError \<Rightarrow> Inr st
      | LoadRaised e \<Rightarrow> Inl e
      | Loaded data \<Rightarrow> process_data st data)"

fun scan :: "('l \<Rightarrow> load_result) \<Rightarrow> scan_state \<Rightarrow> 'l list \<Rightarrow> py_exn + scan_state" where
  "scan loads st [] = Inr st"
| "scan loads st (line # rest) =
     (case process_line loads st line of Inl e \<Rightarrow> Inl e | Inr st' \<Rightarrow> scan loads st' rest)"

text \<open>The file named by \<^verbatim>\<open>session_file\<close>: no path or no such file (line 42), a file whose
  opening or reading raises, or a file read as its lines.\<close>

datatype 'l session_file = NoFile | Unreadable | Readable "'l list"

fun calculate_session_tokens :: "('l \<Rightarrow> load_result) \<Rightarrow> 'l session_file \<Rightarrow> scan_state" where
  "calculate_session_tokens loads NoFile = (TInt 0, TInt 0, PNone)"
| "calculate_session_tokens loads Unreadable = (TInt 0, TInt 0, PNone)"
| "calculate_session_tokens loads (Readable lines) =
     (case scan loads initial_state lines of
        Inl e \<Rightarrow> (TInt 0, TInt 0, PNone)
      | Inr st \<Rightarrow> st)"

subsection \<open>What the specification says the reader computes\<close>

text \<open>A record counts when its \<^verbatim>\<open>type\<close> is \<^verbatim>\<open>"assistant"\<close> and it carries a nested
  \<^verbatim>\<open>message.usage\<close> object; \<open>usage_of\<close> is that object. A token field that is missing
  counts as zero.\<close>

definition usage_of :: "pyval \<Rightarrow> (string \<times> pyval) list option" where
  "usage_of data =
     (case data of
        PDict kvs \<Rightarrow>
          (if map_of kvs ''type'' = Some (PStr ''assistant'') then
             (case map_of kvs ''message'' of
                Some (PDict m) \<Rightarrow>
                  (case map_of m ''usage'' of Some (PDict u) \<Rightarrow> Some u | _ \<Rightarrow> None)
              | _ \<Rightarrow> None)
           else None)
      | _ \<Rightarrow> None)"

definition token_field :: "string \<Rightarrow> (string \<times> pyval) list \<Rightarrow> int" where
  "token_field k u = (case map_of u k of Some (PInt n) \<Rightarrow> n | _ \<Rightarrow> 0)"

definition qualifying_usages :: "('l \<Rightarrow> load_result) \<Rightarrow> 'l list \<Rightarrow> (string \<times> pyval) list list" where
  "qualifying_usages loads lines =
     List.map_filter (\<lambda>line. case loads line of Loaded data \<Rightarrow> usage_of data | _ \<Rightarrow> None) lines"

text \<open>A well-formed line decodes to an object of the shape the specification gives: in an
  assistant record, \<^verbatim>\<open>message\<close> (when present) is an object, its \<^verbatim>\<open>usage\<close> (when present) is
  an object, and the token counts in it (when present) are integers.\<close>

definition int_or_missing :: "pyval option \<Rightarrow> bool" where
  "int_or_missing v = (case v of None \<Rightarrow> True | Some (PInt n) \<Rightarrow> True | Some _ \<Rightarrow> False)"

definition well_formed :: "pyval \<Rightarrow> bool" where
  "well_formed data =
     (case data of
        PDict kvs \<Rightarrow>
          (if map_of kvs ''type'' = Some (PStr ''assistant'') then
             (case map_of kvs ''message'' of
                None \<Rightarrow> True
              | Some (PDict m) \<Rightarrow>
                  (case map_of m ''usage'' of
                     None \<Rightarrow> True
                   | Some (PDict u) \<Rightarrow>
                       int_or_missing (map_of u ''input_tokens'') \<and>
                       int_or_missing (map_of u ''output_tokens'')
                   | Some _ \<Rightarrow> False)
              | Some _ \<Rightarrow> False)
           else True)
      | _ \<Rightarrow> False)"

definition well_formed_line :: "('l \<Rightarrow> load_result) \<Rightarrow> 'l \<Rightarrow> bool" where
  "well_formed_line loads line =
     (case loads line of Loaded data \<Rightarrow> well_formed data | _ \<Rightarrow> False)"

text \<open>The timestamp of the first line, in file order, that decodes to an object with a
  \<^verbatim>\<open>timestamp\<close> field other than \<^verbatim>\<open>null\<close>; \<^verbatim>\<open>None\<close> when there is no such line. The
  \<^verbatim>\<open>type\<close> of the record plays no part.\<close>

fun first_timestamp_of :: "('l \<Rightarrow> load_result) \<Rightarrow> 'l list \<Rightarrow> pyval" where
  "first_timestamp_of loads [] = PNone"
| "first_timestamp_of loads (line # rest) =
     (case loads line of
        Loaded (PDict kvs) \<Rightarrow>
          (case map_of kvs ''timestamp'' of
             None \<Rightarrow> first_timestamp_of loads rest
           | Some v \<Rightarrow> if v = PNone then first_timestamp_of loads rest else v)
      | _ \<Rightarrow> first_timestamp_of loads rest)"

text \<open>What one record adds to a total, and what it leaves in \<^verbatim>\<open>first_timestamp\<close>.\<close>

definition counted :: "string \<Rightarrow> pyval \<Rightarrow> int" where
  "counted k data = (case usage_of data of Some u \<Rightarrow> token_field k u | None \<Rightarrow> 0)"

definition timestamp_after :: "pyval \<Rightarrow> (string \<times> pyval) list \<Rightarrow> pyval" where
  "timestamp_after f kvs =
     (if f = PNone then (case map_of kvs ''timestamp'' of None \<Rightarrow> PNone | Some v \<Rightarrow> v) else f)"

section \<open>calculate_session_tokens.py: the reset-time calculator\<close>

text \<open>
  A \<^verbatim>\<open>datetime\<close> is naive (wall-clock fields only) or aware (wall-clock fields and a UTC
  offset). The wall-clock fields are counted in microseconds since 0001-01-01T00:00:00, the
  offset in microseconds; the largest datetime is 9999-12-31T23:59:59.999999. A
  \<^verbatim>\<open>timedelta\<close> is a number of microseconds.
\<close>

datatype datetime = Naive int | Aware int int

definition max_datetime :: int where
  "max_datetime = 3652059 * 86400000000 - 1"

text \<open>\<^verbatim>\<open>dt + timedelta\<close>: \<^verbatim>\<open>OverflowError\<close> when the wall-clock result leaves years 1 to 9999.\<close>

fun dt_add :: "datetime \<Rightarrow> int \<Rightarrow> py_exn + datetime" where
  "dt_add (Naive t) d =
     (if 0 \<le> t + d \<and> t + d \<le> max_datetime then Inr (Naive (t + d)) else Inl OverflowError)"
| "dt_add (Aware t off) d =
     (if 0 \<le> t + d \<and> t + d \<le> max_datetime then Inr (Aware (t + d) off) else Inl OverflowError)"

text \<open>\<^verbatim>\<open>a >= b\<close> and \<^verbatim>\<open>a - b\<close>: two aware datetimes are compared and subtracted as UTC
  instants; a naive one with an aware one raises \<^verbatim>\<open>TypeError\<close>.\<close>

fun dt_ge :: "datetime \<Rightarrow> datetime \<Rightarrow> py_exn + bool" where
  "dt_ge (Aware a oa) (Aware b ob) = Inr (a - oa \<ge> b - ob)"
| "dt_ge (Naive a) (Naive b) = Inr (a \<ge> b)"
| "dt_ge a b = Inl TypeError"

fun dt_sub :: "datetime \<Rightarrow> datetime \<Rightarrow> py_exn + int" where
  "dt_sub (Aware a oa) (Aware b ob) = Inr ((a - oa) - (b - ob))"
| "dt_sub (Naive a) (Naive b) = Inr (a - b)"
| "dt_sub a b = Inl TypeError"

text \<open>\<^verbatim>\<open>timedelta.total_seconds()\<close> divides the int of microseconds by \<open>10 ^ 6\<close>: the
  quotient rounded to the nearest double. \<open>total_seconds\<close> is the value of that double.
  \<^verbatim>\<open>x // y\<close> and \<^verbatim>\<open>x % y\<close> on floats are the floored quotient and its remainder (exact for
  the divisors 3600 and 60 on these values), \<^verbatim>\<open>int(x)\<close> truncates towards zero.\<close>

definition total_seconds :: "int \<Rightarrow> real" where
  "total_seconds td = fval (round53_div td 1000000 0)"

definition py_floordiv :: "real \<Rightarrow> real \<Rightarrow> real" where
  "py_floordiv x y = of_int \<lfloor>x / y\<rfloor>"

definition py_mod :: "real \<Rightarrow> real \<Rightarrow> real" where
  "py_mod x y = x - y * of_int \<lfloor>x / y\<rfloor>"

definition py_int :: "real \<Rightarrow> int" where
  "py_int x = (if 0 \<le> x then \<lfloor>x\<rfloor> else \<lceil>x\<rceil>)"

text \<open>\<^verbatim>\<open>first_timestamp.replace('Z', '+00:00')\<close>: every \<^verbatim>\<open>Z\<close> is replaced.\<close>

definition replace_Z :: "string \<Rightarrow> string" where
  "replace_Z s = concat (map (\<lambda>c. if c = CHR ''Z'' then ''+00:00'' else [c]) s)"

text \<open>
  \<open>calculate_reset_time fromisoformat now first_timestamp\<close>: \<open>fromisoformat\<close> is
  \<^verbatim>\<open>datetime.datetime.fromisoformat\<close> (\<open>None\<close> where it raises \<^verbatim>\<open>ValueError\<close>), \<open>now\<close> the UTC
  instant that \<^verbatim>\<open>datetime.datetime.now(datetime.timezone.utc)\<close> returns. The result \<open>None\<close>
  is the pair \<^verbatim>\<open>(None, None)\<close>. A first timestamp that is not a str is either falsy
  (line 79) or has no \<^verbatim>\<open>replace\<close> method, and the \<^verbatim>\<open>AttributeError\<close> is caught (line 97).
\<close>

definition calculate_reset_time ::
    "(string \<Rightarrow> datetime option) \<Rightarrow> int \<Rightarrow> pyval \<Rightarrow> (int \<times> int) option" where
  "calculate_reset_time fromisoformat now first_timestamp =
     (case first_timestamp of
        PStr s \<Rightarrow>
          if s = [] then None
          else
            (case fromisoformat (replace_Z s) of
               None \<Rightarrow> None
             | Some start_time \<Rightarrow>
                 (case dt_add start_time (5 * 3600 * 1000000) of
                    Inl e \<Rightarrow> None
                  | Inr reset_time \<Rightarrow>
                      (case dt_ge (Aware now 0) reset_time of
                         Inl e \<Rightarrow> None
                       | Inr True \<Rightarrow> None
                       | Inr False \<Rightarrow>
                           (case dt_sub reset_time (Aware now 0) of
                              Inl e \<Rightarrow> None
                            | Inr time_remaining \<Rightarrow>
                                Some (py_int (py_floordiv (total_seconds time_remaining) 3600),
                                      py_int (py_floordiv
                                        (py_mod (total_seconds time_remaining) 3600) 60))))))
      | _ \<Rightarrow> None)"

text \<open>The text that \<^verbatim>\<open>main\<close> prints for the result (lines 112 to 115); \<open>str_int\<close> is the
  decimal form of an int.\<close>

fun str_nat :: "nat \<Rightarrow> string" where
  "str_nat n =
     (if n < 10 then [''0123456789'' ! n] else str_nat (n div 10) @ [''0123456789'' ! (n mod 10)])"

declare str_nat.simps [simp del]

definition str_int :: "int \<Rightarrow> string" where
  "str_int i = (if i < 0 then CHR ''-'' # str_nat (nat (- i)) else str_nat (nat i))"

definition reset_info :: "(int \<times> int) option \<Rightarrow> string" where
  "reset_info r =
     (case r of
        Some (hours, minutes) \<Rightarrow> str_int hours @ ''h '' @ str_int minutes @ ''min''
      | None \<Rightarrow> ''Reset available'')"

text \<open>The UTC instant of a calendar date and time of day, as \<^verbatim>\<open>datetime\<close> counts it (proleptic
  Gregorian calendar); used to write instants down.\<close>

definition is_leap :: "int \<Rightarrow> bool" where
  "is_leap y = (y mod 4 = 0 \<and> (0 < y mod 100 \<or> y mod 400 = 0))"

definition days_before_year :: "int \<Rightarrow> int" where
  "days_before_year y = (y - 1) * 365 + (y - 1) div 4 - (y - 1) div 100 + (y - 1) div 400"

definition days_before_month :: "int \<Rightarrow> nat \<Rightarrow> int" where
  "days_before_month y m =
     [0, 31, 59, 90, 120, 151, 181, 212, 243, 273, 304, 334] ! (m - 1)
       + (if m > 2 \<and> is_leap y then 1 else 0)"

definition utc_instant :: "int \<Rightarrow> nat \<Rightarrow> int \<Rightarrow> int \<Rightarrow> int \<Rightarrow> int \<Rightarrow> int" where
  "utc_instant y m d hh mi ss =
     ((days_before_year y + days_before_month y m + d - 1) * 86400 + hh * 3600 + mi * 60 + ss)
       * 1000000"

section \<open>claude-with-progress.py: the wrapper\<close>

text \<open>
  \<^verbatim>\<open>self.usage\<close> is whatever \<^verbatim>\<open>json.load\<close> returned from the usage file, of any shape, or
  the dict that the wrapper creates. \<open>usage\<close> is \<^verbatim>\<open>self.usage\<close>, \<open>usage_file\<close> what the file at
  \<^verbatim>\<open>self.usage_file\<close> holds (\<open>None\<close>: no file, or one that does not load).
\<close>

record wrapper =
  usage :: pyval
  usage_file :: "pyval option"

definition fresh_usage :: "string \<Rightarrow> pyval" where
  "fresh_usage now_iso =
     PDict [(''total_tokens'', PInt 0), (''total_cost'', PFloat (Float 0 0)),
            (''requests'', PInt 0), (''session_start'', PStr now_iso)]"

text \<open>\<^verbatim>\<open>__init__\<close> with \<^verbatim>\<open>load_usage\<close>: the file's contents, or a fresh state when reading
  fails; \<open>now_iso\<close> is \<^verbatim>\<open>datetime.datetime.now().isoformat()\<close>.\<close>

definition load_usage :: "string \<Rightarrow> pyval option \<Rightarrow> wrapper" where
  "load_usage now_iso file =
     \<lparr>usage = (case file of Some v \<Rightarrow> v | None \<Rightarrow> fresh_usage now_iso), usage_file = file\<rparr>"

text \<open>\<^verbatim>\<open>save_usage\<close>: the write goes through, or \<^verbatim>\<open>open\<close> raises and the file stays as it
  was, or \<^verbatim>\<open>json.dump\<close> raises after \<^verbatim>\<open>open\<close> truncated the file. Every exception is
  swallowed (lines 39 and 40).\<close>

datatype write_outcome = Written | OpenFailed | DumpFailed

definition save_usage :: "write_outcome \<Rightarrow> wrapper \<Rightarrow> wrapper" where
  "save_usage wo w =
     (case wo of
        Written \<Rightarrow> w\<lparr>usage_file := Some (usage w)\<rparr>
      | OpenFailed \<Rightarrow> w
      | DumpFailed \<Rightarrow> w\<lparr>usage_file := None\<rparr>)"

definition estimate_tokens :: "string \<Rightarrow> int" where
  "estimate_tokens text = int (length text) div 4"

text \<open>\<^verbatim>\<open>(input_tokens * 3.0 / 1_000_000) + (output_tokens * 15.0 / 1_000_000)\<close>: each int is
  converted to a float, and every product, quotient and sum is rounded.\<close>

definition estimate_cost :: "int \<Rightarrow> int \<Rightarrow> py_exn + pyfloat" where
  "estimate_cost input_tokens output_tokens =
     bind_exn (float_of_int input_tokens) (\<lambda>i.
     bind_exn (fdiv (fmul i (Float 3 0)) (Float 1000000 0)) (\<lambda>a.
     bind_exn (float_of_int output_tokens) (\<lambda>out.
     bind_exn (fdiv (fmul out (Float 15 0)) (Float 1000000 0)) (\<lambda>b.
       Inr (fadd a b)))))"

text \<open>\<^verbatim>\<open>a + b\<close> where \<open>b\<close> is an int or a float: a bool counts as 0 or 1, an int meeting a
  float is converted, and \<^verbatim>\<open>None\<close>, str, list and dict raise \<^verbatim>\<open>TypeError\<close>.\<close>

fun py_add :: "pyval \<Rightarrow> pyval \<Rightarrow> py_exn + pyval" where
  "py_add (PInt a) (PInt b) = Inr (PInt (a + b))"
| "py_add (PBool a) (PInt b) = Inr (PInt ((if a then 1 else 0) + b))"
| "py_add (PFloat x) (PInt b) = bind_exn (float_of_int b) (\<lambda>y. Inr (PFloat (fadd x y)))"
| "py_add (PInt a) (PFloat y) = bind_exn (float_of_int a) (\<lambda>x. Inr (PFloat (fadd x y)))"
| "py_add (PBool a) (PFloat y) = Inr (PFloat (fadd (Float (if a then 1 else 0) 0) y))"
| "py_add (PFloat x) (PFloat y) = Inr (PFloat (fadd x y))"
| "py_add a b = Inl TypeError"

text \<open>\<^verbatim>\<open>d[k] = v\<close> keeps the place of a key that is there and appends a new one; only a dict
  takes a str key. \<^verbatim>\<open>u[k] += v\<close> reads the item, adds, and stores the sum.\<close>

fun dict_set :: "string \<Rightarrow> pyval \<Rightarrow> (string \<times> pyval) list \<Rightarrow> (string \<times> pyval) list" where
  "dict_set k v [] = [(k, v)]"
| "dict_set k v ((k', v') # kvs) = (if k' = k then (k, v) # kvs else (k', v') # dict_set k v kvs)"

fun py_setitem :: "pyval \<Rightarrow> string \<Rightarrow> pyval \<Rightarrow> py_exn + pyval" where
  "py_setitem (PDict kvs) k v = Inr (PDict (dict_set k v kvs))"
| "py_setitem u k v = Inl TypeError"

definition py_iadd_item :: "pyval \<Rightarrow> string \<Rightarrow> pyval \<Rightarrow> py_exn + pyval" where
  "py_iadd_item u k v =
     bind_exn (py_getitem u k) (\<lambda>old.
     bind_exn (py_add old v) (\<lambda>new.
       py_setitem u k new))"

text \<open>The update of lines 107 to 112, which the specification calls \<^verbatim>\<open>record\<close>: the usage
  dict as the lines leave it, and the exception that ended them, if any. An exception
  leaves in place what the lines before it stored.\<close>

definition record_usage :: "int \<Rightarrow> int \<Rightarrow> pyval \<Rightarrow> pyval \<times> py_exn option" where
  "record_usage input_tokens output_tokens u =
     (case estimate_cost input_tokens output_tokens of
        Inl e \<Rightarrow> (u, Some e)
      | Inr cost \<Rightarrow>
          (case py_iadd_item u ''total_tokens'' (PInt (input_tokens + output_tokens)) of
             Inl e \<Rightarrow> (u, Some e)
           | Inr u1 \<Rightarrow>
               (case py_iadd_item u1 ''total_cost'' (PFloat cost) of
                  Inl e \<Rightarrow> (u1, Some e)
                | Inr u2 \<Rightarrow>
                    (case py_iadd_item u2 ''requests'' (PInt 1) of
                       Inl e \<Rightarrow> (u2, Some e)
                     | Inr u3 \<Rightarrow> (u3, None)))))"

text \<open>\<^verbatim>\<open>show_progress\<close> prints; only the exceptions that the usage state can cause are kept.
  The duration is computed under a bare \<^verbatim>\<open>except\<close>. \<^verbatim>\<open>render_progress_bar\<close> returns early
  on \<^verbatim>\<open>tokens == 0\<close>; otherwise \<^verbatim>\<open>tokens < 1000\<close> needs a number, and a float count gives a
  float \<^verbatim>\<open>filled\<close>, which cannot multiply a str, unless \<^verbatim>\<open>tokens // 200\<close> exceeds the width 30
  so that \<^verbatim>\<open>min\<close> returns the int. The format \<^verbatim>\<open>.4f\<close> of the cost converts an int to a float
  and refuses what is not a number.\<close>

definition py_eq_zero :: "pyval \<Rightarrow> bool" where
  "py_eq_zero v =
     (case v of PInt n \<Rightarrow> n = 0 | PBool b \<Rightarrow> \<not> b | PFloat x \<Rightarrow> fval x = 0 | _ \<Rightarrow> False)"

definition render_progress_bar :: "pyval \<Rightarrow> py_exn + unit" where
  "render_progress_bar tokens =
     (if py_eq_zero tokens then Inr ()
      else case tokens of
             PInt n \<Rightarrow> Inr ()
           | PBool b \<Rightarrow> Inr ()
           | PFloat x \<Rightarrow> if fval x < 6200 then Inl TypeError else Inr ()
           | _ \<Rightarrow> Inl TypeError)"

definition format_4f :: "pyval \<Rightarrow> py_exn + unit" where
  "format_4f v =
     (case v of
        PInt n \<Rightarrow> if float_overflows n then Inl OverflowError else Inr ()
      | PBool b \<Rightarrow> Inr ()
      | PFloat x \<Rightarrow> Inr ()
      | PStr s \<Rightarrow> Inl ValueError
      | _ \<Rightarrow> Inl TypeError)"

definition show_progress :: "pyval \<Rightarrow> py_exn + unit" where
  "show_progress u =
     bind_exn (py_getitem u ''total_tokens'') (\<lambda>tokens.
     bind_exn (render_progress_bar tokens) (\<lambda>bar.
     bind_exn (py_getitem u ''total_cost'') (\<lambda>cost.
     bind_exn (format_4f cost) (\<lambda>shown.
     bind_exn (py_getitem u ''requests'') (\<lambda>requests.
       Inr ())))))"

text \<open>\<^verbatim>\<open>' '.join(args) if args else ""\<close>\<close>

fun join_space :: "string list \<Rightarrow> string" where
  "join_space [] = []"
| "join_space [a] = a"
| "join_space (a # b # rest) = a @ '' '' @ join_space (b # rest)"

text \<open>What \<^verbatim>\<open>subprocess.run\<close> does: it returns the exit status with the captured output and
  error text, or raises \<^verbatim>\<open>FileNotFoundError\<close>, or raises something else.\<close>

datatype run_outcome = CompletedProcess int string string | RunFileNotFound | RunRaised


text \<open>Lines 117 to 120: the progress bar, then the exit status of the call; an exception in
  \<^verbatim>\<open>show_progress\<close> is caught at line 125, and the status is 1.\<close>

definition show_and_return :: "int \<Rightarrow> wrapper \<Rightarrow> int \<times> wrapper" where
  "show_and_return returncode w =
     (case show_progress (usage w) of Inl e \<Rightarrow> (1, w) | Inr done \<Rightarrow> (returncode, w))"

text \<open>\<^verbatim>\<open>run_claude\<close> returns the exit status and leaves the wrapper updated. An exception in
  the recording lines is caught at line 125: the status is 1, nothing is saved and no bar is
  shown. What is printed, and the exceptions of printing itself, are left out.\<close>

definition run_claude :: "write_outcome \<Rightarrow> run_outcome \<Rightarrow> string list \<Rightarrow> wrapper \<Rightarrow> int \<times> wrapper" where
  "run_claude wo ro args w =
     (let user_input = (if args \<noteq> [] then join_space args else [])
      in case ro of
           RunFileNotFound \<Rightarrow> (1, w)
         | RunRaised \<Rightarrow> (1, w)
         | CompletedProcess returncode stdout stderr \<Rightarrow>
             if returncode = 0 \<and> user_input \<noteq> [] \<and> stdout \<noteq> [] then
               (case record_usage (estimate_tokens user_input) (estimate_tokens stdout) (usage w) of
                  (u, Some e) \<Rightarrow> (1, w\<lparr>usage := u\<rparr>)
                | (u, None) \<Rightarrow> show_and_return returncode (save_usage wo (w\<lparr>usage := u\<rparr>)))
             else show_and_return returncode w)"

text \<open>\<^verbatim>\<open>main\<close>, with \<open>argv\<close> for \<^verbatim>\<open>sys.argv\<close>; \<open>load_now\<close> and \<open>reset_now\<close> are the clock readings
  of \<^verbatim>\<open>load_usage\<close> and of the reset. The result is the exit status of the process: an
  exception of \<^verbatim>\<open>show_progress\<close> under \<^verbatim>\<open>--show-usage\<close> is not caught and ends it with 1.\<close>

definition main :: "string \<Rightarrow> string \<Rightarrow> write_outcome \<Rightarrow> run_outcome \<Rightarrow> string list
    \<Rightarrow> pyval option \<Rightarrow> int \<times> wrapper" where
  "main load_now reset_now wo ro argv file =
     (let w = load_usage load_now file
      in if length argv = 2 \<and> argv ! 1 = ''--reset-session'' then
           (0, save_usage wo (w\<lparr>usage := fresh_usage reset_now\<rparr>))
         else if length argv = 2 \<and> argv ! 1 = ''--show-usage'' then
           (case show_progress (usage w) of Inl e \<Rightarrow> (1, w) | Inr done \<Rightarrow> (0, w))
         else run_claude wo ro (drop 1 argv) w)"




section \<open>Sample inputs\<close>

text \<open>A log given by what each of its lines decodes to (read with \<open>id\<close> for \<^verbatim>\<open>json.loads\<close>):
  a user record with a timestamp, an assistant record with both counts, and an assistant
  record without \<^verbatim>\<open>output_tokens\<close>.\<close>

definition sample_log :: "load_result list" where
  "sample_log =
     [Loaded (PDict [(''type'', PStr ''user''), (''timestamp'', PStr ''2024-01-01T00:00:00Z'')]),
      Loaded (PDict [(''type'', PStr ''assistant''),
                     (''message'', PDict [(''usage'', PDict [(''input_tokens'', PInt 10),
                                                              (''output_tokens'', PInt 20)])])]),
      Loaded (PDict [(''type'', PStr ''assistant''), (''timestamp'', PStr ''2024-01-01T00:05:00Z''),
                     (''message'', PDict [(''usage'', PDict [(''input_tokens'', PInt 5)])])])]"

text \<open>\<^verbatim>\<open>fromisoformat\<close> on the texts used below: midnight of 1 January 2024 with the
  offset \<^verbatim>\<open>+00:00\<close>, the same wall-clock time without an offset, and midnight of
  1 January 2600 with the offset \<^verbatim>\<open>+00:00\<close>.\<close>

definition sample_fromisoformat :: "string \<Rightarrow> datetime option" where
  "sample_fromisoformat s =
     (if s = ''2024-01-01T00:00:00+00:00'' then Some (Aware (utc_instant 2024 1 1 0 0 0) 0)
      else if s = ''2024-01-01T00:00:00'' then Some (Naive (utc_instant 2024 1 1 0 0 0))
      else if s = ''2600-01-01T00:00:00+00:00'' then Some (Aware (utc_instant 2600 1 1 0 0 0) 0)
      else None)"

section \<open>Properties of the session log reader\<close>

lemma has_usage_dict:
  "has_usage (PDict kvs) =
     (if map_of kvs ''type'' = Some (PStr ''assistant'') then
        (case map_of kvs ''message'' of
           None \<Rightarrow> Inr False
         | Some m \<Rightarrow> py_contains ''usage'' m)
      else Inr False)"
  by (simp add: has_usage_def bind_exn_def split: option.splits)

lemma process_data_not_counted:
  assumes "has_usage (PDict kvs) = Inr False"
  shows "process_data (a, b, f) (PDict kvs) = Inr (a, b, timestamp_after f kvs)"
  using assms by (simp add: process_data_def bind_exn_def timestamp_after_def split: option.splits)

lemma process_data_counted:
  assumes "map_of kvs ''type'' = Some (PStr ''assistant'')"
      and "map_of kvs ''message'' = Some (PDict m)"
      and "map_of m ''usage'' = Some (PDict u)"
  shows "process_data (a, b, f) (PDict kvs) =
           bind_exn (py_iadd a (case map_of u ''input_tokens'' of None \<Rightarrow> PInt 0 | Some v \<Rightarrow> v)) (\<lambda>a'.
           bind_exn (py_iadd b (case map_of u ''output_tokens'' of None \<Rightarrow> PInt 0 | Some v \<Rightarrow> v)) (\<lambda>b'.
             Inr (a', b', timestamp_after f kvs)))"
  using assms by (auto simp: process_data_def has_usage_dict bind_exn_def timestamp_after_def split: option.splits sum.splits)

lemma py_iadd_int_or_missing:
  assumes "int_or_missing (map_of u k)"
  shows "py_iadd (TInt a) (case map_of u k of None \<Rightarrow> PInt 0 | Some v \<Rightarrow> v) = Inr (TInt (a + token_field k u))"
  using assms by (auto simp: int_or_missing_def token_field_def split: option.splits pyval.splits)

lemma process_data_well_formed:
  assumes "well_formed data"
  shows "\<exists>f'. process_data (TInt a, TInt b, f) data =
           Inr (TInt (a + counted ''input_tokens'' data), TInt (b + counted ''output_tokens'' data), f')"
proof -
  from assms obtain kvs where d: "data = PDict kvs"
    by (auto simp: well_formed_def split: pyval.splits)
  show ?thesis
  proof (cases "usage_of data")
    case None
    with assms d have "has_usage (PDict kvs) = Inr False"
      by (auto simp: has_usage_dict usage_of_def well_formed_def split: option.splits pyval.splits if_splits)
    with None d show ?thesis
      by (simp add: process_data_not_counted counted_def)
  next
    case (Some u)
    with d obtain m where k: "map_of kvs ''type'' = Some (PStr ''assistant'')"
        "map_of kvs ''message'' = Some (PDict m)" "map_of m ''usage'' = Some (PDict u)"
      by (auto simp: usage_of_def split: option.splits pyval.splits if_splits)
    with assms d have w: "int_or_missing (map_of u ''input_tokens'')" "int_or_missing (map_of u ''output_tokens'')"
      by (auto simp: well_formed_def)
    show ?thesis
      using Some d by (simp add: process_data_counted [OF k] py_iadd_int_or_missing [OF w(1)]
          py_iadd_int_or_missing [OF w(2)] bind_exn_def counted_def)
  qed
qed

lemma sum_qualifying_Cons:
  "sum_list (map (token_field k) (qualifying_usages loads (l # ls))) =
     (case loads l of Loaded data \<Rightarrow> counted k data | _ \<Rightarrow> 0)
       + sum_list (map (token_field k) (qualifying_usages loads ls))"
  by (simp add: qualifying_usages_def counted_def split: load_result.splits option.splits)

lemma scan_well_formed:
  assumes "\<forall>l\<in>set ls. well_formed_line loads l"
  shows "\<exists>f'. scan loads (TInt a, TInt b, f) ls =
           Inr (TInt (a + sum_list (map (token_field ''input_tokens'') (qualifying_usages loads ls))),
                TInt (b + sum_list (map (token_field ''output_tokens'') (qualifying_usages loads ls))), f')"
  using assms
proof (induction ls arbitrary: a b f)
  case Nil
  then show ?case by (simp add: qualifying_usages_def)
next
  case (Cons l ls)
  from Cons.prems obtain data where ld: "loads l = Loaded data" and wf: "well_formed data"
    by (auto simp: well_formed_line_def split: load_result.splits)
  from process_data_well_formed [OF wf, of a b f] obtain f1 where
    p: "process_data (TInt a, TInt b, f) data =
          Inr (TInt (a + counted ''input_tokens'' data), TInt (b + counted ''output_tokens'' data), f1)"
    by blast
  from Cons.prems have rest: "\<forall>l\<in>set ls. well_formed_line loads l" by simp
  from Cons.IH [OF rest, of "a + counted ''input_tokens'' data" "b + counted ''output_tokens'' data" f1]
  show ?case
    by (simp add: process_line_def ld p sum_qualifying_Cons add.assoc)
qed

lemma sum_list_map_mset:
  fixes f :: "'a \<Rightarrow> int"
  assumes "mset xs = mset ys"
  shows "sum_list (map f xs) = sum_list (map f ys)"
proof -
  have "sum_list (map f xs) = sum_mset (image_mset f (mset xs))"
    by (simp add: sum_mset_sum_list [symmetric])
  also have "\<dots> = sum_mset (image_mset f (mset ys))" using assms by simp
  also have "\<dots> = sum_list (map f ys)" by (simp add: sum_mset_sum_list [symmetric])
  finally show ?thesis .
qed

lemma sum_qualifying_lines:
  "sum_list (map (token_field k) (qualifying_usages loads ls)) =
     sum_list (map (\<lambda>l. case loads l of Loaded data \<Rightarrow> counted k data | _ \<Rightarrow> 0) ls)"
proof (induction ls)
  case Nil
  show ?case by (simp add: qualifying_usages_def)
next
  case (Cons l ls)
  then show ?case by (simp add: sum_qualifying_Cons)
qed

lemma sum_qualifying_mset:
  assumes "mset xs = mset ys"
  shows "sum_list (map (token_field k) (qualifying_usages loads xs)) =
         sum_list (map (token_field k) (qualifying_usages loads ys))"
  by (simp add: sum_qualifying_lines sum_list_map_mset [OF assms])

text \<open>
  C2. On a log of well-formed lines, read in any order, the reader returns as input total the
  sum of \<^verbatim>\<open>input_tokens\<close> and as output total the sum of \<^verbatim>\<open>output_tokens\<close> over exactly the
  records of type \<^verbatim>\<open>"assistant"\<close> that carry a nested \<^verbatim>\<open>message.usage\<close> object; a missing
  field counts as zero, and a log with no such record gives the totals 0 and 0.
\<close>

theorem calculate_session_tokens_sums:
  assumes "\<forall>line\<in>set lines. well_formed_line loads line"
      and "mset lines' = mset lines"
  shows "fst (calculate_session_tokens loads (Readable lines')) =
           TInt (sum_list (map (token_field ''input_tokens'') (qualifying_usages loads lines)))
       \<and> fst (snd (calculate_session_tokens loads (Readable lines'))) =
           TInt (sum_list (map (token_field ''output_tokens'') (qualifying_usages loads lines)))
       \<and> (qualifying_usages loads lines = [] \<longrightarrow>
            fst (calculate_session_tokens loads (Readable lines')) = TInt 0
          \<and> fst (snd (calculate_session_tokens loads (Readable lines'))) = TInt 0)
       \<and> (\<forall>u\<in>set (qualifying_usages loads lines). \<forall>k.
            map_of u k = None \<longrightarrow> token_field k u = 0)"
proof -
  from assms have wf: "\<forall>line\<in>set lines'. well_formed_line loads line"
    by (metis mset_eq_setD)
  from scan_well_formed [OF wf, of 0 0 PNone] obtain f' where
    "scan loads initial_state lines' =
       Inr (TInt (sum_list (map (token_field ''input_tokens'') (qualifying_usages loads lines'))),
            TInt (sum_list (map (token_field ''output_tokens'') (qualifying_usages loads lines'))), f')"
    by (auto simp: initial_state_def)
  then have r: "calculate_session_tokens loads (Readable lines') =
       (TInt (sum_list (map (token_field ''input_tokens'') (qualifying_usages loads lines))),
        TInt (sum_list (map (token_field ''output_tokens'') (qualifying_usages loads lines))), f')"
    by (simp add: sum_qualifying_mset [OF assms(2)])
  have z: "\<forall>u\<in>set (qualifying_usages loads lines). \<forall>k. map_of u k = None \<longrightarrow> token_field k u = 0"
    by (simp add: token_field_def)
  from r z show ?thesis by simp
qed

theorem calculate_session_tokens_sums_witness:
  "fst (calculate_session_tokens id (Readable (rev sample_log))) = TInt 15
 \<and> fst (snd (calculate_session_tokens id (Readable (rev sample_log)))) = TInt 20"
proof -
  have wf: "\<forall>line\<in>set sample_log. well_formed_line id line"
    by (simp add: sample_log_def well_formed_line_def well_formed_def int_or_missing_def)
  have p: "mset (rev sample_log) = mset sample_log" by simp
  have q: "qualifying_usages id sample_log =
     [[(''input_tokens'', PInt 10), (''output_tokens'', PInt 20)], [(''input_tokens'', PInt 5)]]"
    by (simp add: sample_log_def qualifying_usages_def usage_of_def)
  from calculate_session_tokens_sums [OF wf p] show ?thesis
    by (simp add: q token_field_def)
qed

lemma process_data_first_timestamp:
  assumes "process_data (a, b, f) (PDict kvs) = Inr (a', b', f')"
  shows "f' = timestamp_after f kvs"
proof (cases "has_usage (PDict kvs)")
  case (Inl e)
  with assms show ?thesis
    by (auto simp: process_data_def bind_exn_def split: option.splits sum.splits if_splits)
next
  case (Inr c)
  with assms show ?thesis
    by (auto simp: process_data_def bind_exn_def timestamp_after_def split: option.splits sum.splits if_splits)
qed

lemma process_data_not_dict:
  assumes "\<forall>kvs. data \<noteq> PDict kvs"
  shows "\<exists>e. process_data st data = Inl e"
proof (cases st)
  case (fields a b f)
  show ?thesis
  proof (cases data)
    case (PDict kvs)
    with assms show ?thesis by simp
  qed (simp_all add: fields process_data_def has_usage_def bind_exn_def)
qed

lemma scan_first_timestamp:
  assumes "scan loads (a, b, f) ls = Inr (a', b', f')"
  shows "f' = (if f = PNone then first_timestamp_of loads ls else f)"
  using assms
proof (induction ls arbitrary: a b f)
  case Nil
  then show ?case by simp
next
  case (Cons l ls)
  show ?case
  proof (cases "loads l")
    case JSONDecodeError
    with Cons.prems have "scan loads (a, b, f) ls = Inr (a', b', f')"
      by (simp add: process_line_def)
    from Cons.IH [OF this] JSONDecodeError show ?thesis by simp
  next
    case (LoadRaised e)
    with Cons.prems show ?thesis by (simp add: process_line_def)
  next
    case (Loaded data)
    with Cons.prems obtain a1 b1 f1 where p: "process_data (a, b, f) data = Inr (a1, b1, f1)"
      and s: "scan loads (a1, b1, f1) ls = Inr (a', b', f')"
      by (auto simp: process_line_def split: sum.splits)
    from p process_data_not_dict [of data "(a, b, f)"] obtain kvs where d: "data = PDict kvs"
      by auto
    from p d have f1: "f1 = timestamp_after f kvs" by (simp add: process_data_first_timestamp)
    from Cons.IH [OF s] have "f' = (if f1 = PNone then first_timestamp_of loads ls else f1)" .
    with f1 Loaded d show ?thesis
      by (auto simp: timestamp_after_def split: option.splits)
  qed
qed

lemma scan_skip_malformed:
  assumes "loads bad = JSONDecodeError"
  shows "scan loads st (before @ bad # after) = scan loads st (before @ after)"
proof (induction before arbitrary: st)
  case Nil
  from assms show ?case by (simp add: process_line_def)
next
  case (Cons l ls)
  then show ?case by (simp split: sum.splits)
qed

lemma scan_raising_line:
  assumes "line \<in> set ls" and "\<And>st. \<exists>e. process_line loads st line = Inl e"
  shows "\<exists>e. scan loads st ls = Inl e"
  using assms(1)
proof (induction ls arbitrary: st)
  case Nil
  then show ?case by simp
next
  case (Cons l ls)
  show ?case
  proof (cases "process_line loads st l")
    case (Inl e)
    then show ?thesis by simp
  next
    case (Inr st')
    with assms(2) [of st] have "l \<noteq> line" by auto
    with Cons.prems have "line \<in> set ls" by simp
    from Cons.IH [OF this, of st'] Inr show ?thesis by simp
  qed
qed

text \<open>
  C3 as stated fails: a line of two hundred thousand opening brackets is malformed, but
  \<^verbatim>\<open>json.loads\<close> raises \<^verbatim>\<open>RecursionError\<close> on it, which is not a \<^verbatim>\<open>JSONDecodeError\<close>; the scan is
  aborted and the totals of the valid lines are lost. (A line of bytes that are not UTF-8
  does the same while the file is read.)
\<close>

theorem malformed_line_skipped_counterexample:
  "calculate_session_tokens id (Readable sample_log) =
     (TInt 15, TInt 20, PStr ''2024-01-01T00:00:00Z'')
 \<and> calculate_session_tokens id
      (Readable (take 2 sample_log @ LoadRaised RecursionError # drop 2 sample_log)) =
     (TInt 0, TInt 0, PNone)"
  by (simp add: sample_log_def initial_state_def process_line_def process_data_def
      has_usage_def bind_exn_def)

text \<open>
  C3, amended. A line on which \<^verbatim>\<open>json.loads\<close> raises \<^verbatim>\<open>JSONDecodeError\<close> is skipped without
  aborting the scan, whatever it contains and wherever it stands: the scan and the result
  are those of the log without that line.
\<close>

theorem malformed_line_skipped:
  assumes "loads bad = JSONDecodeError"
  shows "scan loads initial_state (before @ bad # after) = scan loads initial_state (before @ after)
       \<and> calculate_session_tokens loads (Readable (before @ bad # after)) =
           calculate_session_tokens loads (Readable (before @ after))"
  using assms by (simp add: scan_skip_malformed)

theorem malformed_line_skipped_witness:
  "calculate_session_tokens id (Readable (take 2 sample_log @ JSONDecodeError # drop 2 sample_log)) =
     (TInt 15, TInt 20, PStr ''2024-01-01T00:00:00Z'')"
proof -
  have "id JSONDecodeError = JSONDecodeError" by simp
  from malformed_line_skipped [of id JSONDecodeError "take 2 sample_log" "drop 2 sample_log", OF this]
  show ?thesis
    by (simp add: sample_log_def initial_state_def process_line_def process_data_def
        has_usage_def bind_exn_def)
qed

text \<open>
  C6 as stated fails: the first line carries a timestamp, a later line is valid JSON but not
  an object, and the reader returns no first timestamp at all.
\<close>

theorem first_timestamp_counterexample:
  "first_timestamp_of id [Loaded (PDict [(''timestamp'', PStr ''2024-01-01T00:00:00Z'')]), Loaded (PInt 5)]
     = PStr ''2024-01-01T00:00:00Z''
 \<and> snd (snd (calculate_session_tokens id
      (Readable [Loaded (PDict [(''timestamp'', PStr ''2024-01-01T00:00:00Z'')]), Loaded (PInt 5)])))
     = PNone"
  by (simp add: initial_state_def process_line_def process_data_def has_usage_def bind_exn_def)

text \<open>
  C6, amended. When the scan raises no exception (other than the decode errors it skips),
  the first timestamp returned is the \<^verbatim>\<open>timestamp\<close> field of the first line in file order that
  carries one other than \<^verbatim>\<open>null\<close>, whatever the \<^verbatim>\<open>type\<close> of that record; later timestamps
  never replace it, and it is \<^verbatim>\<open>None\<close> when no line carries one.
\<close>

theorem first_timestamp_retained:
  assumes "scan loads initial_state lines = Inr st"
  shows "snd (snd (calculate_session_tokens loads (Readable lines))) = first_timestamp_of loads lines"
proof -
  obtain a b f where st: "st = (a, b, f)" by (cases st)
  from assms st have "f = first_timestamp_of loads lines"
    using scan_first_timestamp [of loads "TInt 0" "TInt 0" PNone lines a b f]
    by (simp add: initial_state_def)
  with assms st show ?thesis by simp
qed

theorem first_timestamp_retained_witness:
  "snd (snd (calculate_session_tokens id (Readable sample_log))) = PStr ''2024-01-01T00:00:00Z''"
proof -
  have s: "scan id initial_state sample_log = Inr (TInt 15, TInt 20, PStr ''2024-01-01T00:00:00Z'')"
    by (simp add: sample_log_def initial_state_def process_line_def process_data_def
        has_usage_def bind_exn_def)
  from first_timestamp_retained [OF s] show ?thesis
    by (simp add: sample_log_def)
qed

text \<open>
  C9. When the scan raises anything but a decode error, the reader returns
  \<^verbatim>\<open>(0, 0, None)\<close> and not the totals of the lines read so far. A line on which
  \<^verbatim>\<open>json.loads\<close> raises another exception, or which decodes to something that is not an
  object, makes the scan raise.
\<close>

theorem exception_discards_totals:
  "(scan loads initial_state lines = Inl e \<longrightarrow>
      calculate_session_tokens loads (Readable lines) = (TInt 0, TInt 0, PNone))
 \<and> (line \<in> set lines \<and> (loads line = LoadRaised x \<or> (loads line = Loaded v \<and> (\<forall>kvs. v \<noteq> PDict kvs))) \<longrightarrow>
      (\<exists>e'. scan loads initial_state lines = Inl e')
    \<and> calculate_session_tokens loads (Readable lines) = (TInt 0, TInt 0, PNone))"
proof -
  have "\<exists>e'. scan loads initial_state lines = Inl e'"
    if l: "line \<in> set lines"
    and r: "loads line = LoadRaised x \<or> (loads line = Loaded v \<and> (\<forall>kvs. v \<noteq> PDict kvs))"
  proof -
    have "\<exists>e'. process_line loads st line = Inl e'" for st
      using r process_data_not_dict [of v st] by (auto simp: process_line_def)
    from scan_raising_line [OF l this] show ?thesis .
  qed
  then show ?thesis by auto
qed

theorem exception_discards_totals_witness:
  "scan id initial_state sample_log = Inr (TInt 15, TInt 20, PStr ''2024-01-01T00:00:00Z'')
 \<and> calculate_session_tokens id (Readable (sample_log @ [Loaded (PList [])])) = (TInt 0, TInt 0, PNone)"
proof -
  have s: "scan id initial_state sample_log = Inr (TInt 15, TInt 20, PStr ''2024-01-01T00:00:00Z'')"
    by (simp add: sample_log_def initial_state_def process_line_def process_data_def
        has_usage_def bind_exn_def)
  have "Loaded (PList []) \<in> set (sample_log @ [Loaded (PList [])])
      \<and> (id (Loaded (PList [])) = LoadRaised OtherError
         \<or> (id (Loaded (PList [])) = Loaded (PList []) \<and> (\<forall>kvs. PList [] \<noteq> PDict kvs)))"
    by simp
  with exception_discards_totals [of id "sample_log @ [Loaded (PList [])]" TypeError "Loaded (PList [])" OtherError "PList []"]
  have "calculate_session_tokens id (Readable (sample_log @ [Loaded (PList [])])) = (TInt 0, TInt 0, PNone)"
    by blast
  with s show ?thesis by simp
qed

section \<open>Properties of the float arithmetic\<close>

lemma round_half_even_bounds:
  assumes "0 < d"
  shows "n div d \<le> round_half_even n d" and "round_half_even n d \<le> n div d + 1"
  by (simp_all add: round_half_even_def Let_def)

lemma round_half_even_low:
  assumes "0 < d" and "2 * (n mod d) < d"
  shows "round_half_even n d = n div d"
  using assms by (simp add: round_half_even_def Let_def)

lemma round_half_even_ge:
  assumes "0 < d" and "N * d \<le> n"
  shows "N \<le> round_half_even n d"
proof -
  from assms have "(N * d) div d \<le> n div d" by (intro zdiv_mono1) simp_all
  with assms(1) have "N \<le> n div d" by simp
  with round_half_even_bounds(1) [OF assms(1), of n] show ?thesis by linarith
qed

lemma round_half_even_nonneg:
  assumes "0 < d" and "0 \<le> n"
  shows "0 \<le> round_half_even n d"
  using round_half_even_ge [OF assms(1), of 0 n] assms(2) by simp

lemma round_half_even_lt:
  assumes "0 < d" and "2 * n < (2 * M - 1) * d"
  shows "round_half_even n d < M"
proof -
  have nd: "n = (n div d) * d + n mod d" by simp
  have r: "0 \<le> n mod d" "n mod d < d" using assms(1) by simp_all
  have "n < M * d"
  proof -
    have "(2 * M - 1) * d \<le> 2 * (M * d)" using assms(1) by (simp add: algebra_simps)
    with assms(2) show ?thesis by linarith
  qed
  have "n div d < M"
  proof (rule ccontr)
    assume "\<not> n div d < M"
    then have "M * d \<le> (n div d) * d" using assms(1) by (simp add: mult_right_mono)
    also have "\<dots> \<le> n" using nd r(1) by linarith
    finally show False using \<open>n < M * d\<close> by simp
  qed
  then consider "n div d \<le> M - 2" | "n div d = M - 1" by linarith
  then show ?thesis
  proof cases
    case 1
    with round_half_even_bounds(2) [OF assms(1), of n] show ?thesis by linarith
  next
    case 2
    with nd have "n = (M - 1) * d + n mod d" by simp
    with assms(2) have "2 * (n mod d) < (2 * M - 1) * d - 2 * ((M - 1) * d)" by linarith
    also have "\<dots> = d" by (simp add: algebra_simps)
    finally have "round_half_even n d = n div d" using assms(1) by (intro round_half_even_low)
    with 2 show ?thesis by simp
  qed
qed

lemma shifted_real:
  assumes "shifted n d s = (N, D)" and "0 < d"
  shows "0 < D" and "real_of_int N / real_of_int D = real_of_int n / real_of_int d * 2 powi s"
  using assms
  by (auto simp: shifted_def power_int_def field_simps split: if_splits)

lemma bitlen_real_bounds:
  assumes "0 < x"
  shows "2 powi (bitlen x - 1) \<le> real_of_int x" and "real_of_int x < 2 powi (bitlen x)"
proof -
  from assms have b: "1 \<le> bitlen x" by (auto simp: bitlen_alt_def)
  from bitlen_bounds [OF assms] have "2 ^ nat (bitlen x - 1) \<le> x" "x < 2 ^ nat (bitlen x)"
    by simp_all
  then have "real_of_int (2 ^ nat (bitlen x - 1)) \<le> real_of_int x"
    "real_of_int x < real_of_int (2 ^ nat (bitlen x))"
    by (simp_all only: of_int_le_iff of_int_less_iff)
  with b show "2 powi (bitlen x - 1) \<le> real_of_int x" "real_of_int x < 2 powi (bitlen x)"
    by (simp_all add: power_int_def)
qed

lemma quotient_exponent_bounds:
  assumes "0 < n" and "0 < d"
  shows "2 powi (quotient_exponent n d) \<le> real_of_int n / real_of_int d"
    and "real_of_int n / real_of_int d < 2 powi (quotient_exponent n d + 1)"
proof -
  let ?b = "bitlen n - bitlen d"
  obtain N D where sh: "shifted n d (- ?b) = (N, D)" by (cases "shifted n d (- ?b)")
  from shifted_real [OF sh assms(2)] have D: "0 < D"
    and q: "real_of_int N / real_of_int D = real_of_int n / real_of_int d * 2 powi (- ?b)"
    by simp_all
  have pos: "(0::real) < 2 powi ?b" "(0::real) < 2 powi (- ?b)" by simp_all
  let ?x = "real_of_int n / real_of_int d"
  have test: "D \<le> N \<longleftrightarrow> 2 powi ?b \<le> ?x"
  proof -
    have "D \<le> N \<longleftrightarrow> 1 \<le> real_of_int N / real_of_int D" using D by simp
    also have "\<dots> \<longleftrightarrow> 1 \<le> ?x * 2 powi (- ?b)" by (simp only: q)
    also have "\<dots> \<longleftrightarrow> 2 powi ?b \<le> ?x"
    proof -
      define p :: real where "p = 2 powi ?b"
      have p: "0 < p" by (simp add: p_def)
      have "(2::real) powi (- ?b) = 1 / p"
        unfolding p_def by (simp only: power_int_minus inverse_eq_divide)
      then have "1 \<le> ?x * 2 powi (- ?b) \<longleftrightarrow> 1 \<le> ?x / p" by simp
      also have "\<dots> \<longleftrightarrow> p \<le> ?x" using p assms(2) by (simp add: field_simps)
      finally show ?thesis by (simp only: p_def)
    qed
    finally show ?thesis .
  qed
  have lo: "2 powi (?b - 1) < ?x"
  proof -
    have "2 powi (?b - 1) = 2 powi (bitlen n - 1) / (2::real) powi (bitlen d)"
      by (simp add: power_int_diff)
    also have "\<dots> \<le> real_of_int n / 2 powi (bitlen d)"
      using bitlen_real_bounds(1) [OF assms(1)] by (simp add: divide_right_mono)
    also have "\<dots> < ?x"
      using bitlen_real_bounds(2) [OF assms(2)] assms
      by (simp add: divide_strict_left_mono)
    finally show ?thesis .
  qed
  have hi: "?x < 2 powi (?b + 1)"
  proof -
    have "?x < 2 powi (bitlen n) / real_of_int d"
      using bitlen_real_bounds(2) [OF assms(1)] assms(2) by (simp add: divide_strict_right_mono)
    also have "\<dots> \<le> 2 powi (bitlen n) / 2 powi (bitlen d - 1)"
      using bitlen_real_bounds(1) [OF assms(2)] assms(2)
      by (intro divide_left_mono) simp_all
    also have "\<dots> = 2 powi (?b + 1)"
      by (simp add: power_int_diff power_int_add)
    finally show ?thesis .
  qed
  have qe: "quotient_exponent n d = (if D \<le> N then ?b else ?b - 1)"
    using assms sh by (simp add: quotient_exponent_def Let_def)
  show "2 powi (quotient_exponent n d) \<le> ?x"
    using qe test lo by (auto simp: less_imp_le)
  show "?x < 2 powi (quotient_exponent n d + 1)"
    using qe test hi by (auto simp: not_le)
qed

lemma quotient_exponent_less:
  assumes "0 < n" and "0 < d" and "real_of_int n / real_of_int d < 2 ^ K"
  shows "quotient_exponent n d < int K"
proof -
  have "(2::real) powi (quotient_exponent n d) < 2 powi (int K)"
    using quotient_exponent_bounds(1) [OF assms(1,2)] assms(3) by (simp add: power_int_def)
  then show ?thesis
    by (rule power_int_le_imp_less_exp [rotated]) simp_all
qed

lemma total_seconds_shift:
  assumes "0 < td" and "td < 2 ^ 34 * 1000000"
  obtains S where "19 \<le> S"
    and "total_seconds td = real_of_int (round_half_even (td * 2 ^ S) 1000000) / 2 ^ S"
proof -
  have "real_of_int td / real_of_int 1000000 < 2 ^ 34"
    using assms(2) by (simp add: field_simps flip: of_int_less_iff)
  from quotient_exponent_less [OF assms(1) _ this] have qe: "quotient_exponent td 1000000 < 34"
    by simp
  define s where "s = 52 - quotient_exponent td 1000000"
  define S where "S = nat s"
  from qe have s: "19 \<le> s" by (simp add: s_def)
  then have sS: "s = int S" by (simp add: S_def)
  have sh: "shifted td 1000000 (int S) = (td * 2 ^ S, 1000000)"
    by (simp add: shifted_def)
  have "td \<noteq> 0" using assms(1) by simp
  then have "round53_div td 1000000 0 =
      (case shifted td 1000000 s of (N, D) \<Rightarrow> Float (round_half_even N D) (0 - s))"
    unfolding round53_div_def s_def Let_def by (simp only: if_False)
  then have "round53_div td 1000000 0 = Float (round_half_even (td * 2 ^ S) 1000000) (- int S)"
    by (simp add: sh sS)
  then have "total_seconds td = real_of_int (round_half_even (td * 2 ^ S) 1000000) / 2 ^ S"
    by (simp add: total_seconds_def fval_def power_int_minus field_simps)
  moreover have "19 \<le> S" using s by (simp add: S_def)
  ultimately show ?thesis using that by blast
qed

lemma total_seconds_minutes:
  assumes "0 < td" and "td < 2 ^ 34 * 1000000"
  shows "\<lfloor>total_seconds td / 60\<rfloor> = td div 60000000"
proof -
  from total_seconds_shift [OF assms] obtain S where S: "19 \<le> S"
    and ts: "total_seconds td = real_of_int (round_half_even (td * 2 ^ S) 1000000) / 2 ^ S"
    by blast
  let ?R = "round_half_even (td * 2 ^ S) 1000000"
  define q where "q = td div 60000000"
  have dm: "td = q * 60000000 + td mod 60000000" by (simp add: q_def)
  have r: "0 \<le> td mod 60000000" "td mod 60000000 < 60000000" by simp_all
  have p: "(2::int) ^ 20 \<le> 2 ^ (S + 1)" using S by (intro power_increasing) simp_all
  have lo: "60 * q * 2 ^ S \<le> ?R"
  proof (rule round_half_even_ge)
    have "60 * q * 2 ^ S * 1000000 = (q * 60000000) * 2 ^ S" by simp
    also have "\<dots> \<le> td * 2 ^ S" using dm r(1) by (intro mult_right_mono) simp_all
    finally show "60 * q * 2 ^ S * 1000000 \<le> td * 2 ^ S" .
  qed simp
  have hi: "?R < 60 * (q + 1) * 2 ^ S"
  proof (rule round_half_even_lt)
    have "td \<le> (q + 1) * 60000000 - 1" using dm r(2) by (simp add: algebra_simps)
    then have "td * 2 ^ S \<le> ((q + 1) * 60000000 - 1) * 2 ^ S" by (intro mult_right_mono) simp_all
    then have "2 * (td * 2 ^ S) \<le> 2 * (60 * (q + 1) * 2 ^ S) * 1000000 - 2 ^ (S + 1)"
      by (simp add: algebra_simps)
    also have "\<dots> < 2 * (60 * (q + 1) * 2 ^ S) * 1000000 - 1000000" using p by simp
    also have "\<dots> = (2 * (60 * (q + 1) * 2 ^ S) - 1) * 1000000" by (simp add: algebra_simps)
    finally show "2 * (td * 2 ^ S) < (2 * (60 * (q + 1) * 2 ^ S) - 1) * 1000000" .
  qed simp
  have pos: "(0::real) < 2 ^ S" by simp
  have "real_of_int (60 * q * 2 ^ S) \<le> real_of_int ?R" using lo by (simp only: of_int_le_iff)
  then have a: "60 * real_of_int q \<le> total_seconds td"
    using pos by (simp add: ts field_simps)
  have "real_of_int ?R < real_of_int (60 * (q + 1) * 2 ^ S)" using hi by (simp only: of_int_less_iff)
  then have b: "total_seconds td < 60 * (real_of_int q + 1)"
    using pos by (simp add: ts field_simps)
  from a b have "\<lfloor>total_seconds td / 60\<rfloor> = q"
    by (intro floor_unique) (simp_all add: field_simps)
  then show ?thesis by (simp add: q_def)
qed

lemma total_seconds_nonneg:
  assumes "0 \<le> td"
  shows "0 \<le> total_seconds td"
proof (cases "td = 0")
  case True
  then show ?thesis by (simp add: total_seconds_def round53_div_def fval_def)
next
  case False
  obtain N D where sh: "shifted td 1000000 (52 - quotient_exponent td 1000000) = (N, D)"
    by (cases "shifted td 1000000 (52 - quotient_exponent td 1000000)")
  from sh assms have "0 \<le> N" "0 < D" by (auto simp: shifted_def split: if_splits)
  then have "0 \<le> round_half_even N D" by (simp add: round_half_even_nonneg)
  with False sh show ?thesis
    by (simp add: total_seconds_def round53_div_def Let_def fval_def)
qed

lemma hours_minutes_of_double:
  fixes x :: real
  shows "py_int (py_floordiv x 3600) = \<lfloor>x / 60\<rfloor> div 60"
    and "py_int (py_floordiv (py_mod x 3600) 60) = \<lfloor>x / 60\<rfloor> mod 60"
proof -
  have h: "\<lfloor>x / 3600\<rfloor> = \<lfloor>x / 60\<rfloor> div 60"
    using floor_divide_real_eq_div [of 60 "x / 60"] by simp
  show "py_int (py_floordiv x 3600) = \<lfloor>x / 60\<rfloor> div 60"
    by (simp add: py_floordiv_def py_int_def h)
  have "(x - 3600 * real_of_int \<lfloor>x / 3600\<rfloor>) / 60 = x / 60 - real_of_int (60 * \<lfloor>x / 3600\<rfloor>)"
    by simp
  then have "\<lfloor>(x - 3600 * real_of_int \<lfloor>x / 3600\<rfloor>) / 60\<rfloor> = \<lfloor>x / 60\<rfloor> - 60 * \<lfloor>x / 3600\<rfloor>"
    by (simp only: floor_diff_of_int)
  also have "\<dots> = \<lfloor>x / 60\<rfloor> mod 60"
    by (simp add: h minus_mult_div_eq_mod)
  finally show "py_int (py_floordiv (py_mod x 3600) 60) = \<lfloor>x / 60\<rfloor> mod 60"
    by (simp add: py_floordiv_def py_mod_def py_int_def)
qed

section \<open>Properties of the reset-time calculator\<close>

lemma py_int_of_int: "py_int (of_int k) = k"
  by (simp add: py_int_def)

lemma calculate_reset_time_aware:
  assumes "s \<noteq> []"
      and "fromisoformat (replace_Z s) = Some start_time"
      and "dt_add start_time (5 * 3600 * 1000000) = Inr (Aware reset off)"
  shows "calculate_reset_time fromisoformat now (PStr s) =
           (if reset - off \<le> now then None
            else Some (py_int (py_floordiv (total_seconds (reset - off - now)) 3600),
                       py_int (py_floordiv (py_mod (total_seconds (reset - off - now)) 3600) 60)))"
  using assms by (simp add: calculate_reset_time_def)

lemma utc_instant_samples:
  "utc_instant 2024 1 1 0 0 0 = 63839664000000000"
  "utc_instant 2024 1 1 2 30 0 = 63839673000000000"
  "utc_instant 2024 1 1 6 0 0 = 63839685600000000"
  "utc_instant 2024 1 1 5 0 0 = 63839682000000000"
  "utc_instant 2600 1 1 0 0 0 = 82016496000000000"
  unfolding utc_instant_def days_before_year_def days_before_month_def is_leap_def
  by simp_all

lemma replace_Z_sample:
  "replace_Z ''2024-01-01T00:00:00Z'' = ''2024-01-01T00:00:00+00:00''"
  "replace_Z ''2024-01-01T00:00:00'' = ''2024-01-01T00:00:00''"
  "replace_Z ''2600-01-01T00:00:00Z'' = ''2600-01-01T00:00:00+00:00''"
  by (simp_all add: replace_Z_def)

text \<open>
  C1 as stated fails on a parsable timestamp without a UTC offset: start
  \<^verbatim>\<open>2024-01-01T00:00:00\<close> parses, start plus 5 hours reads 05:00 and the current UTC time is
  02:30, yet there is no countdown.
\<close>

theorem reset_time_countdown_counterexample:
  "sample_fromisoformat (replace_Z ''2024-01-01T00:00:00'') =
     Some (Naive (utc_instant 2024 1 1 0 0 0))
 \<and> utc_instant 2024 1 1 2 30 0 < utc_instant 2024 1 1 0 0 0 + 5 * 3600 * 1000000
 \<and> calculate_reset_time sample_fromisoformat (utc_instant 2024 1 1 2 30 0)
      (PStr ''2024-01-01T00:00:00'') = None"
  by (simp add: replace_Z_sample(2) sample_fromisoformat_def utc_instant_samples
      calculate_reset_time_def max_datetime_def del: One_nat_def)

text \<open>
  C1, amended. For a first timestamp that parses as a timezone-aware datetime (one with a UTC
  offset, such as the \<^verbatim>\<open>Z\<close> suffix) and whose reset instant, start plus 5 hours, is a
  representable datetime: when the reset instant is strictly after the current UTC time, the
  result is hours = floor(remaining seconds / 3600) and minutes = floor((remaining seconds
  mod 3600) / 60), truncated and not rounded, both non-negative and minutes below 60, where
  the remaining seconds are the double that \<^verbatim>\<open>total_seconds()\<close> returns; while the remaining
  time is below \<open>2 ^ 34\<close> seconds (some 544 years) these are the floors of the exact remaining
  time. When the current time is at or past the reset instant, there is no countdown and the
  report reads \<^verbatim>\<open>Reset available\<close>.
\<close>

theorem reset_time_countdown:
  assumes "s \<noteq> []"
      and "fromisoformat (replace_Z s) = Some start_time"
      and "dt_add start_time (5 * 3600 * 1000000) = Inr (Aware reset off)"
      and "remaining_seconds = total_seconds (reset - off - now)"
      and "hours = \<lfloor>remaining_seconds / 3600\<rfloor>"
      and "minutes = \<lfloor>(remaining_seconds - 3600 * of_int \<lfloor>remaining_seconds / 3600\<rfloor>) / 60\<rfloor>"
  shows "(now < reset - off \<longrightarrow>
            calculate_reset_time fromisoformat now (PStr s) = Some (hours, minutes)
          \<and> 0 \<le> hours \<and> 0 \<le> minutes \<and> minutes < 60)
       \<and> (now < reset - off \<and> reset - off - now < 2 ^ 34 * 1000000 \<longrightarrow>
            hours = (reset - off - now) div 3600000000
          \<and> minutes = ((reset - off - now) mod 3600000000) div 60000000)
       \<and> (reset - off \<le> now \<longrightarrow>
            calculate_reset_time fromisoformat now (PStr s) = None
          \<and> reset_info (calculate_reset_time fromisoformat now (PStr s)) = ''Reset available'')"
proof -
  let ?td = "reset - off - now"
  let ?q = "\<lfloor>total_seconds ?td / 60\<rfloor>"
  have h: "hours = py_int (py_floordiv (total_seconds ?td) 3600)"
    using assms(4,5) by (simp add: py_floordiv_def py_int_of_int)
  have m: "minutes = py_int (py_floordiv (py_mod (total_seconds ?td) 3600) 60)"
    using assms(4,6) by (simp add: py_floordiv_def py_mod_def py_int_of_int)
  have hq: "hours = ?q div 60" using h by (simp only: hours_minutes_of_double)
  have mq: "minutes = ?q mod 60" using m by (simp only: hours_minutes_of_double)
  have r: "calculate_reset_time fromisoformat now (PStr s) =
             (if reset - off \<le> now then None else Some (hours, minutes))"
    using assms(1-3) calculate_reset_time_aware [of s fromisoformat start_time reset off now] h m by simp
  have pos: "0 \<le> hours" if "now < reset - off"
  proof -
    from that have "0 \<le> total_seconds ?td" by (intro total_seconds_nonneg) simp
    then have "0 \<le> ?q" by simp
    then show ?thesis using hq by (simp add: pos_imp_zdiv_nonneg_iff)
  qed
  have mb: "0 \<le> minutes" "minutes < 60" using mq by simp_all
  have exact: "hours = ?td div 3600000000 \<and> minutes = (?td mod 3600000000) div 60000000"
    if "now < reset - off" and "?td < 2 ^ 34 * 1000000"
  proof -
    from that have q: "?q = ?td div 60000000" by (intro total_seconds_minutes) simp_all
    have "?td div (60000000 * 60) = ?td div 60000000 div 60"
      by (rule zdiv_zmult2_eq) simp
    moreover have "?td mod (60000000 * 60) div 60000000 = ?td div 60000000 mod 60"
    proof -
      have "?td mod (60000000 * 60) = 60000000 * (?td div 60000000 mod 60) + ?td mod 60000000"
        by (rule zmod_zmult2_eq) simp
      moreover have "0 \<le> ?td mod 60000000" "?td mod 60000000 < 60000000" by simp_all
      ultimately show ?thesis by (simp add: div_pos_pos_trivial)
    qed
    ultimately show ?thesis using hq mq q by simp
  qed
  show ?thesis
    using r pos mb exact by (simp add: reset_info_def)
qed

theorem reset_time_countdown_witness:
  "calculate_reset_time sample_fromisoformat (utc_instant 2024 1 1 2 30 0)
     (PStr ''2024-01-01T00:00:00Z'') = Some (2, 30)
 \<and> reset_info (Some (2, 30)) = ''2h 30min''
 \<and> calculate_reset_time sample_fromisoformat (utc_instant 2024 1 1 6 0 0)
     (PStr ''2024-01-01T00:00:00Z'') = None
 \<and> calculate_reset_time sample_fromisoformat (utc_instant 2024 1 1 5 0 0 + 1)
     (PStr ''2600-01-01T00:00:00Z'') = Some (5049120, 0)"
proof -
  let ?s = "''2024-01-01T00:00:00Z''"
  let ?start = "Aware 63839664000000000 0"
  have a: "?s \<noteq> []" by simp
  have b: "sample_fromisoformat (replace_Z ?s) = Some ?start"
    by (simp add: replace_Z_sample sample_fromisoformat_def utc_instant_samples del: One_nat_def)
  have c: "dt_add ?start (5 * 3600 * 1000000) = Inr (Aware 63839682000000000 0)"
    by (simp add: max_datetime_def)
  have t1: "total_seconds 9000000000 = 9000" by code_simp
  have "calculate_reset_time sample_fromisoformat 63839673000000000 (PStr ?s) = Some (2, 30)"
    using reset_time_countdown [where fromisoformat = sample_fromisoformat and s = ?s
        and start_time = ?start and reset = 63839682000000000 and off = 0
        and now = 63839673000000000, OF a b c refl refl refl]
    by (simp add: t1)
  moreover have "calculate_reset_time sample_fromisoformat 63839685600000000 (PStr ?s) = None"
    using reset_time_countdown [where fromisoformat = sample_fromisoformat and s = ?s
        and start_time = ?start and reset = 63839682000000000 and off = 0
        and now = 63839685600000000, OF a b c refl refl refl]
    by simp
  moreover have "reset_info (Some (2, 30)) = ''2h 30min''"
    by (simp add: reset_info_def str_int_def str_nat.simps)
  moreover have "calculate_reset_time sample_fromisoformat 63839682000000001
      (PStr ''2600-01-01T00:00:00Z'') = Some (5049120, 0)"
  proof -
    let ?far = "Aware 82016496000000000 0"
    have a': "''2600-01-01T00:00:00Z'' \<noteq> []" by simp
    have b': "sample_fromisoformat (replace_Z ''2600-01-01T00:00:00Z'') = Some ?far"
      by (simp add: replace_Z_sample sample_fromisoformat_def utc_instant_samples del: One_nat_def)
    have c': "dt_add ?far (5 * 3600 * 1000000) = Inr (Aware 82016514000000000 0)"
      by (simp add: max_datetime_def)
    have t2: "total_seconds 18176831999999999 = 18176832000" by code_simp
    show ?thesis
      using reset_time_countdown [where fromisoformat = sample_fromisoformat
          and s = "''2600-01-01T00:00:00Z''" and start_time = ?far
          and reset = 82016514000000000 and off = 0
          and now = 63839682000000001, OF a' b' c' refl refl refl]
      by (simp add: t2)
  qed
  ultimately show ?thesis by (simp add: utc_instant_samples del: One_nat_def)
qed

text \<open>
  C10. For a first timestamp that parses as a datetime without a UTC offset, the result is no
  countdown (reported as \<^verbatim>\<open>Reset available\<close>): when the reset time can be formed at all,
  comparing the aware current time with it raises \<^verbatim>\<open>TypeError\<close>, which is caught.
\<close>

theorem naive_timestamp_no_countdown:
  assumes "fromisoformat (replace_Z s) = Some (Naive t)"
  shows "calculate_reset_time fromisoformat now (PStr s) = None
       \<and> reset_info (calculate_reset_time fromisoformat now (PStr s)) = ''Reset available''
       \<and> (\<forall>reset_time. dt_add (Naive t) (5 * 3600 * 1000000) = Inr reset_time \<longrightarrow>
            dt_ge (Aware now 0) reset_time = Inl TypeError)"
proof -
  have g: "dt_ge (Aware now 0) reset_time = Inl TypeError"
    if "dt_add (Naive t) (5 * 3600 * 1000000) = Inr reset_time" for reset_time
    using that by (auto split: if_splits)
  have "calculate_reset_time fromisoformat now (PStr s) = None"
  proof (cases "dt_add (Naive t) (5 * 3600 * 1000000)")
    case (Inl e)
    with assms show ?thesis by (simp add: calculate_reset_time_def)
  next
    case (Inr reset_time)
    with assms g [OF Inr] show ?thesis by (simp add: calculate_reset_time_def)
  qed
  with g show ?thesis by (simp add: reset_info_def)
qed

theorem naive_timestamp_no_countdown_witness:
  "calculate_reset_time sample_fromisoformat (utc_instant 2024 1 1 2 30 0)
     (PStr ''2024-01-01T00:00:00'') = None
 \<and> dt_add (Naive (utc_instant 2024 1 1 0 0 0)) (5 * 3600 * 1000000) = Inr (Naive 63839682000000000)
 \<and> dt_ge (Aware (utc_instant 2024 1 1 2 30 0) 0) (Naive 63839682000000000) = Inl TypeError"
proof -
  have b: "sample_fromisoformat (replace_Z ''2024-01-01T00:00:00'') = Some (Naive (utc_instant 2024 1 1 0 0 0))"
    by (simp add: replace_Z_sample(2) sample_fromisoformat_def)
  have c: "dt_add (Naive (utc_instant 2024 1 1 0 0 0)) (5 * 3600 * 1000000) = Inr (Naive 63839682000000000)"
    by (simp add: max_datetime_def utc_instant_samples del: One_nat_def)
  from naive_timestamp_no_countdown [where fromisoformat = sample_fromisoformat
      and s = "''2024-01-01T00:00:00''" and t = "utc_instant 2024 1 1 0 0 0"
      and now = "utc_instant 2024 1 1 2 30 0", OF b] c
  show ?thesis by (simp del: One_nat_def)
qed

section \<open>Properties of the wrapper\<close>

lemma map_of_dict_set:
  "map_of (dict_set k v kvs) k' = (if k' = k then Some v else map_of kvs k')"
  by (induction kvs) auto


lemma py_getitem_dict_set:
  "py_getitem (PDict (dict_set k v kvs)) k' =
     (if k' = k then Inr v else py_getitem (PDict kvs) k')"
  by (simp add: map_of_dict_set)






























text \<open>
  C7 as stated fails: when the usage file cannot be opened for writing, the exception is
  swallowed and the file still holds the old state after the reset command.
\<close>

theorem reset_session_counterexample:
  "usage_file (snd (main ''2024-01-01T00:00:00'' ''2024-01-01T01:00:00'' OpenFailed RunRaised
      [''claude'', ''--reset-session'']
      (Some (PDict [(''total_tokens'', PInt 4000), (''total_cost'', PFloat (Float 1 0)),
                    (''requests'', PInt 2), (''session_start'', PStr ''2023-12-31T23:00:00'')])))) =
     Some (PDict [(''total_tokens'', PInt 4000), (''total_cost'', PFloat (Float 1 0)),
                  (''requests'', PInt 2), (''session_start'', PStr ''2023-12-31T23:00:00'')])"
  by (simp add: main_def load_usage_def save_usage_def)

text \<open>
  C7, amended. After the reset command the wrapper's usage state has total_tokens = 0,
  total_cost = 0.0, requests = 0 and the session start just read from the clock, whatever the
  usage file held, and the command returns 0; the state is saved best-effort: the file holds
  it when the write goes through, keeps its old contents when it cannot be opened, and is
  left unreadable when the write fails after opening.
\<close>

theorem reset_session:
  "main load_now reset_now wo ro [prog, ''--reset-session''] file =
     (0, \<lparr>usage = fresh_usage reset_now,
          usage_file = (case wo of Written \<Rightarrow> Some (fresh_usage reset_now)
                                 | OpenFailed \<Rightarrow> file
                                 | DumpFailed \<Rightarrow> None)\<rparr>)
 \<and> fresh_usage reset_now =
      PDict [(''total_tokens'', PInt 0), (''total_cost'', PFloat (Float 0 0)),
             (''requests'', PInt 0), (''session_start'', PStr reset_now)]
 \<and> py_getitem (fresh_usage reset_now) ''total_tokens'' = Inr (PInt 0)
 \<and> py_getitem (fresh_usage reset_now) ''total_cost'' = Inr (PFloat (Float 0 0))
 \<and> fval (Float 0 0) = 0
 \<and> py_getitem (fresh_usage reset_now) ''requests'' = Inr (PInt 0)
 \<and> py_getitem (fresh_usage reset_now) ''session_start'' = Inr (PStr reset_now)"
  by (cases wo) (simp_all add: main_def load_usage_def save_usage_def fresh_usage_def fval_def)

theorem reset_session_witness:
  "usage_file (snd (main ''2024-01-01T00:00:00'' ''2024-01-01T01:00:00'' Written RunRaised
      [''claude'', ''--reset-session'']
      (Some (PDict [(''total_tokens'', PInt 4000), (''total_cost'', PFloat (Float 1 0)),
                    (''requests'', PInt 2), (''session_start'', PStr ''2023-12-31T23:00:00'')])))) =
     Some (PDict [(''total_tokens'', PInt 0), (''total_cost'', PFloat (Float 0 0)),
                  (''requests'', PInt 0), (''session_start'', PStr ''2024-01-01T01:00:00'')])"
  using reset_session [of "''2024-01-01T00:00:00''" "''2024-01-01T01:00:00''" Written RunRaised "''claude''"
      "Some (PDict [(''total_tokens'', PInt 4000), (''total_cost'', PFloat (Float 1 0)),
                    (''requests'', PInt 2), (''session_start'', PStr ''2023-12-31T23:00:00'')])"]
  by simp







end
